theory Spec2Isabelle
  imports Main
begin

section \<open>Data model of the dashboard (frontend/src/App.jsx)\<close>

text \<open>
  Rows of the two remote tables as the component reads them. A customer row is one
  conversation, keyed by its phone number; a message row belongs to the conversation
  named by its phone field. Strings are Isabelle strings; timestamps are integers.
  The field \<open>id\<close> of a message is called \<open>m_id\<close> here, and its \<open>phone\<close> is
  \<open>m_phone\<close>, since a record field name is a constant of the theory.
\<close>

record customer =
  phone :: string
  display_name :: "string option"
  last_seen :: "int option"

record message =
  m_id :: nat
  m_phone :: string
  body :: string
  direction :: string
  created_at :: int

text \<open>
  The answer of a query of the hosted backend, the object \<open>{ data, error }\<close>: either
  field may be \<open>null\<close>.
\<close>

record 'a response =
  data :: "'a list option"
  error :: "string option"

text \<open>
  JavaScript's \<open>!v\<close> on a value that is \<open>null\<close>/\<open>undefined\<close> (\<open>None\<close>) or a string:
  it holds of \<open>null\<close> and of the empty string.
\<close>

definition falsy :: "string option \<Rightarrow> bool" where
  "falsy v = (case v of None \<Rightarrow> True | Some s \<Rightarrow> s = [])"

section \<open>The view-model: React state and the runtime around it\<close>

text \<open>
  \<open>conversations\<close>, \<open>selectedPhone\<close> and \<open>messages\<close> are the three \<open>useState\<close> cells of
  \<open>App\<close>. The other fields are the runtime the effects talk to: \<open>channel\<close> is the
  filter key of the live \<open>messages_<phone>\<close> realtime channel (\<open>None\<close> when there is
  none), \<open>pending\<close> lists the phone keys of the \<open>loadMessages\<close> calls still in flight,
  \<open>loading_customers\<close> says whether the one \<open>loadCustomers\<close> call is in flight, and
  \<open>console\<close> collects what \<open>console.error\<close> printed (label and error).
\<close>

record app =
  conversations :: "customer list"
  selectedPhone :: "string option"
  messages :: "message list"
  channel :: "string option"
  pending :: "string list"
  loading_customers :: bool
  console :: "(string \<times> string) list"

text \<open>State after the first render and its two mount effects.\<close>

definition init :: app where
  "init = \<lparr>conversations = [], selectedPhone = None, messages = [], channel = None,
           pending = [], loading_customers = True, console = []\<rparr>"

subsection \<open>Conversation list sync\<close>

text \<open>
  Completion of \<open>loadCustomers\<close>:
  \<open>if (error) console.error(...) else setConversations(data || [])\<close>.
\<close>

definition loadCustomers :: "customer response \<Rightarrow> app \<Rightarrow> app" where
  "loadCustomers r s =
     (let s' = s\<lparr>loading_customers := False\<rparr> in
      case error r of
        Some e \<Rightarrow> s'\<lparr>console := console s' @ [(''Error loading customers:'', e)]\<rparr>
      | None \<Rightarrow> s'\<lparr>conversations := (case data r of None \<Rightarrow> [] | Some d \<Rightarrow> d)\<rparr>)"

text \<open>
  The state updater of the \<open>customers_channel\<close> UPDATE callback:
  \<open>prev.map((c) => c.phone === payload.new.phone ? payload.new : c)\<close>.
\<close>

definition customers_update :: "customer \<Rightarrow> customer list \<Rightarrow> customer list" where
  "customers_update new prev = map (\<lambda>c. if phone c = phone new then new else c) prev"

definition on_customers_update :: "customer \<Rightarrow> app \<Rightarrow> app" where
  "on_customers_update new s = s\<lparr>conversations := customers_update new (conversations s)\<rparr>"

subsection \<open>Message thread sync\<close>

text \<open>
  What one run of the effect on \<open>[selectedPhone]\<close> issues. \<open>if (!selectedPhone) return\<close>
  comes first; otherwise \<open>loadMessages()\<close> starts the bulk fetch for the selected key and
  a channel is subscribed to INSERT events with the filter \<open>phone=eq.<selectedPhone>\<close>.
\<close>

datatype command = LoadMessages string | SubscribeInsert string

definition messages_effect :: "string option \<Rightarrow> command list" where
  "messages_effect sel =
     (case sel of
        None \<Rightarrow> []
      | Some p \<Rightarrow> if p = [] then [] else [LoadMessages p, SubscribeInsert p])"

fun issue :: "command \<Rightarrow> app \<Rightarrow> app" where
  "issue (LoadMessages p) s = s\<lparr>pending := pending s @ [p]\<rparr>"
| "issue (SubscribeInsert p) s = s\<lparr>channel := Some p\<rparr>"

text \<open>
  The cleanup \<open>() => supabase.removeChannel(channel)\<close> exists only when the previous run
  of the effect got past its early return.
\<close>

definition cleanup :: "app \<Rightarrow> app" where
  "cleanup s = (if falsy (selectedPhone s) then s else s\<lparr>channel := None\<rparr>)"

text \<open>
  \<open>onClick={() => setSelectedPhone(c.phone)}\<close>: setting the value the cell already holds
  does nothing; a new value runs the previous cleanup and then the effect again. The
  message list is not touched.
\<close>

definition setSelectedPhone :: "string \<Rightarrow> app \<Rightarrow> app" where
  "setSelectedPhone p s =
     (if selectedPhone s = Some p then s
      else fold issue (messages_effect (Some p)) ((cleanup s)\<lparr>selectedPhone := Some p\<rparr>))"

text \<open>
  Completion of the \<open>loadMessages\<close> call that was started for key \<open>p\<close>:
  \<open>if (error) console.error(...) else setMessages(data || [])\<close>. The callback does not
  look at the selection of the moment.
\<close>

definition loadMessages :: "string \<Rightarrow> message response \<Rightarrow> app \<Rightarrow> app" where
  "loadMessages p r s =
     (let s' = s\<lparr>pending := remove1 p (pending s)\<rparr> in
      case error r of
        Some e \<Rightarrow> s'\<lparr>console := console s' @ [(''Error loading messages:'', e)]\<rparr>
      | None \<Rightarrow> s'\<lparr>messages := (case data r of None \<Rightarrow> [] | Some d \<Rightarrow> d)\<rparr>)"

text \<open>
  The state updater of the INSERT callback, \<open>(prev) => [payload.new, ...prev]\<close>, and the
  delivery of an INSERT on the messages table: the realtime service calls the callback
  of the live channel only for a row that passes the channel's filter
  \<open>phone=eq.<key>\<close>; the callback itself checks nothing.
\<close>

definition messages_insert :: "message \<Rightarrow> message list \<Rightarrow> message list" where
  "messages_insert new prev = new # prev"

definition on_messages_insert :: "message \<Rightarrow> app \<Rightarrow> app" where
  "on_messages_insert row s =
     (case channel s of
        None \<Rightarrow> s
      | Some f \<Rightarrow> if m_phone row = f then s\<lparr>messages := messages_insert row (messages s)\<rparr>
                  else s)"

text \<open>
  An earlier revision of the component subscribes to every INSERT on the table and
  checks the key in the callback:
  \<open>if (msg.phone === selected) setMessages(prev => [msg, ...prev])\<close>.
\<close>

definition insert_if_selected :: "string option \<Rightarrow> message \<Rightarrow> message list \<Rightarrow> message list" where
  "insert_if_selected selected msg prev =
     (if Some (m_phone msg) = selected then msg # prev else prev)"

text \<open>
  The bulk query as \<open>loadMessages\<close> builds it, over the rows of the messages table:
  \<open>.eq("phone", p).order("created_at", { ascending: false }).limit(100)\<close>.
  Rows of equal \<open>created_at\<close> come in the reverse of their stable ascending order.
\<close>

definition query_messages :: "message list \<Rightarrow> string \<Rightarrow> message list" where
  "query_messages store p =
     take 100 (rev (sort_key created_at (filter (\<lambda>m. m_phone m = p) store)))"

text \<open>
  The message panel is a flex box with \<open>flexDirection: "column-reverse"\<close> over
  \<open>messages.map(...)\<close>: the first element of the list is drawn at the bottom. Read from
  top to bottom, the bodies on screen are the list reversed.
\<close>

definition rendered :: "app \<Rightarrow> string list" where
  "rendered s = rev (map body (messages s))"

subsection \<open>Events of the view-model\<close>

datatype event =
    CustomersLoaded "customer response"
  | CustomerUpdated customer
  | Click string
  | MessagesLoaded string "message response"
  | MessageInserted message

fun step :: "app \<Rightarrow> event \<Rightarrow> app" where
  "step s (CustomersLoaded r) = loadCustomers r s"
| "step s (CustomerUpdated new) = on_customers_update new s"
| "step s (Click p) = setSelectedPhone p s"
| "step s (MessagesLoaded p r) = loadMessages p r s"
| "step s (MessageInserted row) = on_messages_insert row s"

text \<open>
  What can happen in a state: the customers answer while that call is in flight; a click
  on a row of the conversation list; the answer to a bulk fetch in flight, holding at
  most 100 rows of the key it was asked for; feed events at any time.
\<close>

fun enabled :: "app \<Rightarrow> event \<Rightarrow> bool" where
  "enabled s (CustomersLoaded r) = loading_customers s"
| "enabled s (CustomerUpdated new) = True"
| "enabled s (Click p) = (p \<in> set (map phone (conversations s)))"
| "enabled s (MessagesLoaded p r) =
     (p \<in> set (pending s) \<and>
      (case data r of
         None \<Rightarrow> True
       | Some d \<Rightarrow> length d \<le> 100 \<and> list_all (\<lambda>m. m_phone m = p) d))"
| "enabled s (MessageInserted row) = True"

inductive reachable :: "app \<Rightarrow> bool" where
  reachable_init: "reachable init"
| reachable_step: "reachable s \<Longrightarrow> enabled s ev \<Longrightarrow> reachable (step s ev)"

fun run :: "app \<Rightarrow> event list \<Rightarrow> app option" where
  "run s [] = Some s"
| "run s (ev # evs) = (if enabled s ev then run (step s ev) evs else None)"

text \<open>The list in view holds only messages of the selected conversation.\<close>

definition view_scoped :: "app \<Rightarrow> bool" where
  "view_scoped s = list_all (\<lambda>m. Some (m_phone m) = selectedPhone s) (messages s)"

text \<open>
  Events that neither change the selection nor answer a fetch that was started for
  another key than the selected one.
\<close>

fun for_selection :: "app \<Rightarrow> event \<Rightarrow> bool" where
  "for_selection s (Click p) = (selectedPhone s = Some p)"
| "for_selection s (MessagesLoaded p r) = (selectedPhone s = Some p)"
| "for_selection s ev = True"

section \<open>The composer (ChatComposer in frontend/src/App.jsx)\<close>

text \<open>
  \<open>String.prototype.trim\<close> strips white space and line terminators from both ends. A
  \<open>char\<close> of the input text stands for one code unit of the JavaScript string, below
  256; of the characters \<open>trim\<close> strips, those in this range are TAB, LF, VT, FF, CR,
  SPACE and NO-BREAK SPACE (code 160).
\<close>

definition is_ws :: "char \<Rightarrow> bool" where
  "is_ws c = (c \<in> set [CHR 0x09, CHR 0x0A, CHR 0x0B, CHR 0x0C, CHR 0x0D, CHR 0x20, CHR 0xA0])"

definition trim :: "string \<Rightarrow> string" where
  "trim t = rev (dropWhile is_ws (rev (dropWhile is_ws t)))"

text \<open>The values handed to \<open>JSON.stringify\<close>.\<close>

datatype json = JNull | JString string | JObject "(string \<times> json) list"

text \<open>
  How the promise of \<open>fetch\<close> settles: it resolves with a response of any HTTP status,
  and rejects only when no response arrives (a network error).
\<close>

datatype outcome = Resolved nat | Rejected string

record request =
  url :: string
  http_method :: string
  headers :: "(string \<times> string) list"
  payload :: json

text \<open>
  The field \<open>method\<close> of the options of \<open>fetch\<close> is \<open>http_method\<close> in \<open>request\<close>.
  \<open>text_value\<close> is the \<open>useState\<close> cell \<open>text\<close>; \<open>sent\<close> collects the requests given to
  \<open>fetch\<close> and \<open>logged\<close> what \<open>console.error\<close> printed.
\<close>

record composer =
  text_value :: string
  sent :: "request list"
  logged :: "(string \<times> string) list"

text \<open>
  \<open>send\<close>, with the way its one \<open>fetch\<close> settles as an argument. The guard is
  \<open>if (!selectedPhone || !text.trim()) return\<close>; the body of the request is
  \<open>JSON.stringify({ phone: selectedPhone, text })\<close>; \<open>setText("")\<close> follows the
  \<open>await\<close> inside the \<open>try\<close>, and the \<open>catch\<close> only logs.
\<close>

definition send :: "string option \<Rightarrow> outcome \<Rightarrow> composer \<Rightarrow> composer" where
  "send sel result c =
     (case sel of
        None \<Rightarrow> c
      | Some p \<Rightarrow>
          if p = [] \<or> trim (text_value c) = [] then c
          else
            (let c' = c\<lparr>sent := sent c @
                   [\<lparr>url = ''/send'', http_method = ''POST'',
                     headers = [(''Content-Type'', ''application/json'')],
                     payload = JObject [(''phone'', JString p),
                                        (''text'', JString (text_value c))]\<rparr>]\<rparr>
             in (case result of
                   Resolved st \<Rightarrow> c'\<lparr>text_value := []\<rparr>
                 | Rejected err \<Rightarrow>
                     c'\<lparr>logged := logged c' @ [(''Failed to send message:'', err)]\<rparr>)))"

section \<open>The request-forwarding handler (api/index.js)\<close>

text \<open>
  The handler stringifies the request object the platform hands it, so the values are
  those of the JavaScript heap: \<open>null\<close>, strings, and references to objects, an object
  being its list of fields. A heap lists its objects by address. References may form
  cycles.
\<close>

datatype jsval = VNull | VString string | VRef nat

type_synonym heap = "(nat \<times> (string \<times> jsval) list) list"

text \<open>
  \<open>JSON.stringify\<close> walks the value with the stack of the objects it is inside of, and
  throws a TypeError (\<open>None\<close>) when it meets one of them again; otherwise the value
  unfolds to a finite tree. An address outside the heap does not occur in a JavaScript
  heap; it unfolds to \<open>null\<close>.
\<close>

function tree_of :: "heap \<Rightarrow> nat list \<Rightarrow> jsval \<Rightarrow> json option" where
  "tree_of h stack VNull = Some JNull"
| "tree_of h stack (VString s) = Some (JString s)"
| "tree_of h stack (VRef a) =
     (if a \<in> set stack then None
      else case map_of h a of
             None \<Rightarrow> Some JNull
           | Some props \<Rightarrow>
               map_option JObject
                 (those (map (\<lambda>kv. map_option (Pair (fst kv)) (tree_of h (a # stack) (snd kv)))
                    props)))"
  by pat_completeness auto
termination
proof (relation "measure (\<lambda>(h, stack, v). card (fst ` set h - set stack))")
  show "wf (measure (\<lambda>(h, stack, v). card (fst ` set h - set stack)))" by simp
next
  fix h :: heap and stack :: "nat list" and a :: nat and props :: "(string \<times> jsval) list"
    and kv :: "string \<times> jsval"
  assume "a \<notin> set stack" and "map_of h a = Some props"
  then have "a \<in> fst ` set h" by (metis map_of_eq_None_iff option.distinct(1))
  with \<open>a \<notin> set stack\<close> have "fst ` set h - set (a # stack) \<subset> fst ` set h - set stack"
    by auto
  then have "card (fst ` set h - set (a # stack)) < card (fst ` set h - set stack)"
    by (intro psubset_card_mono) auto
  then show "((h, a # stack, snd kv), (h, stack, VRef a))
      \<in> measure (\<lambda>(h, stack, v). card (fst ` set h - set stack))"
    by simp
qed

text \<open>
  \<open>JSON.stringify\<close> of an object literal with the given fields, such as
  \<open>{ req, env: process.env }\<close>: the literal is a fresh object, so it is on no cycle
  itself. The printing of a finite tree is the parameter \<open>print\<close>.
\<close>

definition stringify ::
  "(json \<Rightarrow> string) \<Rightarrow> heap \<Rightarrow> (string \<times> jsval) list \<Rightarrow> string option" where
  "stringify print h props =
     map_option (print \<circ> JObject)
       (those (map (\<lambda>kv. map_option (Pair (fst kv)) (tree_of h [] (snd kv))) props))"

text \<open>
  What the handler does to the outside, in order, and what the child process does to the
  handler: a \<open>data\<close> event per chunk of standard output, the chunk being a Buffer of
  bytes; one \<open>close\<close> event with the exit code (\<open>null\<close> when a signal ended the
  process); or an \<open>error\<close> event when the process could not be started.
\<close>

datatype effect =
    Spawn string "string list"
  | StdinWrite string
  | StdinEnd
  | Respond nat string

datatype proc_event = Data "nat list" | Close "int option" | ProcError string

definition is_respond :: "effect \<Rightarrow> bool" where
  "is_respond e = (case e of Respond st b \<Rightarrow> True | _ \<Rightarrow> False)"

text \<open>
  \<open>out\<close> is the variable of that name; \<open>listening\<close> says whether the \<open>data\<close> and
  \<open>close\<close> listeners are registered; \<open>thrown\<close> is the exception that left the handler
  or an event with no listener, if any.
\<close>

record handler_state =
  out :: string
  effects :: "effect list"
  listening :: bool
  thrown :: "string option"

text \<open>
  The synchronous part of the handler, statement by statement: \<open>spawn\<close>; then
  \<open>py.stdin.write(JSON.stringify({ req, env: process.env }))\<close>, with no \<open>try\<close> around
  it, so that a throw of \<open>JSON.stringify\<close> leaves the handler before anything is
  written, before \<open>py.stdin.end()\<close> and before the listeners are registered.
  \<open>req\<close> and \<open>env\<close> are the request object and \<open>process.env\<close> in the heap \<open>h\<close>;
  \<open>dirname\<close> is \<open>__dirname\<close>.
\<close>

definition handler ::
  "(json \<Rightarrow> string) \<Rightarrow> heap \<Rightarrow> string \<Rightarrow> jsval \<Rightarrow> jsval \<Rightarrow> handler_state" where
  "handler print h dirname req env =
     (case stringify print h [(''req'', req), (''env'', env)] of
        None \<Rightarrow>
          \<lparr>out = [], effects = [Spawn ''python3'' [dirname @ ''/index.py'']],
           listening = False,
           thrown = Some ''TypeError: Converting circular structure to JSON''\<rparr>
      | Some envelope \<Rightarrow>
          \<lparr>out = [],
           effects = [Spawn ''python3'' [dirname @ ''/index.py''], StdinWrite envelope,
                      StdinEnd],
           listening = True, thrown = None\<rparr>)"

text \<open>
  The two listeners, \<open>d => out += d\<close> and
  \<open>code => res.status(code === 0 ? 200 : 500).send(out)\<close>. \<open>out += d\<close> appends the
  chunk converted to a string on its own; the conversion of a Buffer is the parameter
  \<open>decode\<close>. There is no listener for \<open>error\<close>: the event is thrown, and nothing runs
  after an uncaught exception.
\<close>

fun on_proc_event ::
  "(nat list \<Rightarrow> string) \<Rightarrow> proc_event \<Rightarrow> handler_state \<Rightarrow> handler_state" where
  "on_proc_event decode (Data d) s =
     (if listening s \<and> thrown s = None then s\<lparr>out := out s @ decode d\<rparr> else s)"
| "on_proc_event decode (Close code) s =
     (if listening s \<and> thrown s = None
      then s\<lparr>effects := effects s @ [Respond (if code = Some 0 then 200 else 500) (out s)]\<rparr>
      else s)"
| "on_proc_event decode (ProcError e) s =
     (if thrown s = None then s\<lparr>thrown := Some e\<rparr> else s)"

definition serve ::
  "(json \<Rightarrow> string) \<Rightarrow> (nat list \<Rightarrow> string) \<Rightarrow> heap \<Rightarrow> string \<Rightarrow> jsval \<Rightarrow> jsval \<Rightarrow>
   proc_event list \<Rightarrow> handler_state" where
  "serve print decode h dirname req env evs =
     fold (on_proc_event decode) evs (handler print h dirname req env)"

section \<open>The configuration module (frontend/src/supabaseClient.js)\<close>

record client =
  supabaseUrl :: string
  supabaseKey :: string

text \<open>
  Evaluation of the module over the environment of the build: the two variables are
  read, each is checked with \<open>if (!v) throw new Error(...)\<close>, and only then
  \<open>createClient(supabaseUrl, supabaseKey)\<close> is exported. \<open>reads\<close> lists the variables
  read, in order; \<open>exported\<close> is the error thrown (\<open>Inl\<close>) or the client.
\<close>

record module_init =
  reads :: "string list"
  exported :: "string + client"

definition supabaseClient :: "(string \<rightharpoonup> string) \<Rightarrow> module_init" where
  "supabaseClient env =
     \<lparr>reads = [''VITE_SUPABASE_URL'', ''VITE_SUPABASE_KEY''],
      exported =
        (case env ''VITE_SUPABASE_URL'' of
           None \<Rightarrow> Inl ''VITE_SUPABASE_URL is missing in your .env file''
         | Some u \<Rightarrow>
             if u = [] then Inl ''VITE_SUPABASE_URL is missing in your .env file''
             else
               (case env ''VITE_SUPABASE_KEY'' of
                  None \<Rightarrow> Inl ''VITE_SUPABASE_KEY is missing in your .env file''
                | Some k \<Rightarrow>
                    if k = [] then Inl ''VITE_SUPABASE_KEY is missing in your .env file''
                    else Inr \<lparr>supabaseUrl = u, supabaseKey = k\<rparr>))\<rparr>"

section \<open>Example rows, states and traces\<close>

definition alice :: customer where
  "alice = \<lparr>phone = ''+15551234'', display_name = Some ''Alice'', last_seen = Some 20\<rparr>"

definition bob :: customer where
  "bob = \<lparr>phone = ''+15559999'', display_name = None, last_seen = Some 10\<rparr>"

definition msg_hi :: "int \<Rightarrow> message" where
  "msg_hi t = \<lparr>m_id = 1, m_phone = ''+15551234'', body = ''hi'', direction = ''incoming'',
              created_at = t\<rparr>"

definition msg_there :: "int \<Rightarrow> message" where
  "msg_there t = \<lparr>m_id = 2, m_phone = ''+15551234'', body = ''there'', direction = ''incoming'',
                 created_at = t\<rparr>"

definition msg_ok :: "int \<Rightarrow> message" where
  "msg_ok t = \<lparr>m_id = 3, m_phone = ''+15551234'', body = ''ok'', direction = ''outgoing'',
              created_at = t\<rparr>"

definition msg_bob :: message where
  "msg_bob = \<lparr>m_id = 7, m_phone = ''+15559999'', body = ''yo'', direction = ''incoming'',
              created_at = 4\<rparr>"

text \<open>
  The customers arrive, the user clicks the conversation \<open>+15551234\<close>, and the bulk fetch
  answers with the result of the query over the stored rows.
\<close>

definition opened :: "customer list \<Rightarrow> message list \<Rightarrow> event list" where
  "opened cs store =
     [CustomersLoaded \<lparr>data = Some cs, error = None\<rparr>,
      Click ''+15551234'',
      MessagesLoaded ''+15551234''
        \<lparr>data = Some (query_messages store ''+15551234''), error = None\<rparr>]"

definition thread_open :: app where
  "thread_open = foldl step init (opened [alice, bob] [msg_hi 1])"

definition thread_loading :: app where
  "thread_loading = foldl step init (take 2 (opened [alice, bob] [msg_hi 1]))"

definition draft :: "string \<Rightarrow> composer" where
  "draft t = \<lparr>text_value = t, sent = [], logged = []\<rparr>"


text \<open>
  A request as the HTTP server hands it over, reduced to the fields that matter: object
  0 is the request, whose \<open>socket\<close> (object 1) has a \<open>parser\<close> (object 2) whose
  \<open>socket\<close> is object 1 again. Object 3 is \<open>process.env\<close>.
\<close>

definition node_heap :: heap where
  "node_heap =
     [(0, [(''method'', VString ''POST''), (''url'', VString ''/send''), (''socket'', VRef 1)]),
      (1, [(''parser'', VRef 2)]),
      (2, [(''socket'', VRef 1)]),
      (3, [(''PATH'', VString ''/usr/bin'')])]"

section \<open>Conversation list: the UPDATE handler\<close>

lemma customers_update_length: "length (customers_update new prev) = length prev"
  by (simp add: customers_update_def)

lemma customers_update_nth:
  "i < length prev \<Longrightarrow>
   customers_update new prev ! i = (if phone (prev ! i) = phone new then new else prev ! i)"
  by (simp add: customers_update_def)

lemma customers_update_phones: "map phone (customers_update new prev) = map phone prev"
  by (induction prev) (simp_all add: customers_update_def)

text \<open>
  Claim C4. For every conversation UPDATE event and every current list, the handler puts
  the payload row at each position whose phone key equals the payload's, leaves every
  other position as it was, and keeps the length and the order of the keys (no re-sort);
  nothing else of the state changes.
\<close>

theorem update_replaces_matching_entry:
  "length (conversations (on_customers_update new s)) = length (conversations s) \<and>
   (\<forall>i < length (conversations s).
      conversations (on_customers_update new s) ! i =
        (if phone (conversations s ! i) = phone new then new else conversations s ! i)) \<and>
   map phone (conversations (on_customers_update new s)) = map phone (conversations s) \<and>
   on_customers_update new s = s\<lparr>conversations := conversations (on_customers_update new s)\<rparr>"
  by (simp add: on_customers_update_def customers_update_length customers_update_nth
      customers_update_phones)

theorem update_replaces_matching_entry_witness:
  "conversations (on_customers_update
      \<lparr>phone = ''+2'', display_name = Some ''Bo'', last_seen = Some 9\<rparr>
      (init\<lparr>conversations :=
         [\<lparr>phone = ''+1'', display_name = None, last_seen = Some 5\<rparr>,
          \<lparr>phone = ''+2'', display_name = None, last_seen = Some 3\<rparr>]\<rparr>)) ! 1
     = \<lparr>phone = ''+2'', display_name = Some ''Bo'', last_seen = Some 9\<rparr> \<and>
   conversations (on_customers_update
      \<lparr>phone = ''+2'', display_name = Some ''Bo'', last_seen = Some 9\<rparr>
      (init\<lparr>conversations :=
         [\<lparr>phone = ''+1'', display_name = None, last_seen = Some 5\<rparr>,
          \<lparr>phone = ''+2'', display_name = None, last_seen = Some 3\<rparr>]\<rparr>)) ! 0
     = \<lparr>phone = ''+1'', display_name = None, last_seen = Some 5\<rparr>"
  using update_replaces_matching_entry
    [of "\<lparr>phone = ''+2'', display_name = Some ''Bo'', last_seen = Some 9\<rparr>"
        "init\<lparr>conversations :=
           [\<lparr>phone = ''+1'', display_name = None, last_seen = Some 5\<rparr>,
            \<lparr>phone = ''+2'', display_name = None, last_seen = Some 3\<rparr>]\<rparr>"]
  by (simp add: init_def)

text \<open>
  Claim C9. An UPDATE event whose phone key matches no entry leaves the list as it is;
  no update event inserts or deletes an entry: the length and the set of phone keys of
  the list are the same after every update event.
\<close>

theorem update_never_inserts_or_deletes:
  "(phone new \<notin> phone ` set (conversations s) \<longrightarrow>
      conversations (on_customers_update new s) = conversations s) \<and>
   length (conversations (on_customers_update new s)) = length (conversations s) \<and>
   phone ` set (conversations (on_customers_update new s)) = phone ` set (conversations s)"
proof -
  have "customers_update new prev = prev" if "phone new \<notin> phone ` set prev" for prev
    using that by (induction prev) (auto simp: customers_update_def)
  moreover have "phone ` set (customers_update new prev) = phone ` set prev" for prev
    using customers_update_phones [of new prev] by (metis set_map)
  ultimately show ?thesis
    by (simp add: on_customers_update_def customers_update_length)
qed

theorem update_never_inserts_or_deletes_witness:
  "phone \<lparr>phone = ''+3'', display_name = None, last_seen = None\<rparr>
     \<notin> phone ` set (conversations (init\<lparr>conversations :=
         [\<lparr>phone = ''+1'', display_name = None, last_seen = Some 5\<rparr>]\<rparr>)) \<and>
   conversations (on_customers_update
      \<lparr>phone = ''+3'', display_name = None, last_seen = None\<rparr>
      (init\<lparr>conversations :=
         [\<lparr>phone = ''+1'', display_name = None, last_seen = Some 5\<rparr>]\<rparr>))
     = [\<lparr>phone = ''+1'', display_name = None, last_seen = Some 5\<rparr>]"
  using update_never_inserts_or_deletes
    [of "\<lparr>phone = ''+3'', display_name = None, last_seen = None\<rparr>"
        "init\<lparr>conversations :=
           [\<lparr>phone = ''+1'', display_name = None, last_seen = Some 5\<rparr>]\<rparr>"]
  by (simp add: init_def)

section \<open>Message thread: what the feed and the fetch do to the list in view\<close>

subsection \<open>The live channel follows the selection\<close>

lemma channel_follows_selection:
  "reachable s \<Longrightarrow> channel s = (if falsy (selectedPhone s) then None else selectedPhone s)"
proof (induction rule: reachable.induct)
  case reachable_init
  show ?case by (simp add: init_def falsy_def)
next
  case (reachable_step s ev)
  show ?case
  proof (cases ev)
    case (Click p)
    with reachable_step.IH show ?thesis
      by (simp add: setSelectedPhone_def cleanup_def messages_effect_def falsy_def)
  next
    case (CustomersLoaded r)
    with reachable_step.IH show ?thesis
      by (simp add: loadCustomers_def Let_def split: option.splits)
  next
    case (CustomerUpdated new)
    with reachable_step.IH show ?thesis
      by (simp add: on_customers_update_def)
  next
    case (MessagesLoaded p r)
    with reachable_step.IH show ?thesis
      by (simp add: loadMessages_def Let_def split: option.splits)
  next
    case (MessageInserted row)
    with reachable_step.IH show ?thesis
      by (simp add: on_messages_insert_def split: option.splits)
  qed
qed

lemma run_reachable: "reachable s \<Longrightarrow> run s evs = Some s' \<Longrightarrow> reachable s'"
proof (induction evs arbitrary: s)
  case Nil
  then show ?case by simp
next
  case (Cons ev evs)
  then show ?case
    by (auto split: if_splits intro: reachable_step)
qed

lemma insert_other_key_ignored:
  assumes "reachable s" and "Some (m_phone row) \<noteq> selectedPhone s"
  shows "on_messages_insert row s = s"
  using channel_follows_selection [OF assms(1)] assms(2)
  by (auto simp: on_messages_insert_def split: option.splits if_splits)

lemma insert_selected_key_prepends:
  assumes "reachable s" and "selectedPhone s = Some (m_phone row)" and "m_phone row \<noteq> []"
  shows "on_messages_insert row s = s\<lparr>messages := row # messages s\<rparr>"
  using channel_follows_selection [OF assms(1)] assms(2,3)
  by (simp add: on_messages_insert_def messages_insert_def falsy_def)

lemma view_scoped_preserved:
  assumes "reachable s" and "enabled s ev" and "for_selection s ev" and "view_scoped s"
  shows "view_scoped (step s ev)"
proof (cases ev)
  case (Click p)
  with assms show ?thesis by (simp add: setSelectedPhone_def)
next
  case (CustomersLoaded r)
  with assms show ?thesis
    by (simp add: loadCustomers_def Let_def view_scoped_def split: option.splits)
next
  case (CustomerUpdated new)
  with assms show ?thesis by (simp add: on_customers_update_def view_scoped_def)
next
  case (MessagesLoaded p r)
  with assms show ?thesis
    by (auto simp: loadMessages_def Let_def view_scoped_def list_all_iff split: option.splits)
next
  case (MessageInserted row)
  show ?thesis
  proof (cases "Some (m_phone row) = selectedPhone s")
    case True
    with assms(1,4) MessageInserted show ?thesis
      by (auto simp: on_messages_insert_def messages_insert_def view_scoped_def
          split: option.splits)
  next
    case False
    with assms(1,4) MessageInserted show ?thesis
      by (simp add: insert_other_key_ignored)
  qed
qed

lemma click_keeps_messages: "messages (setSelectedPhone p s) = messages s"
  by (simp add: setSelectedPhone_def cleanup_def messages_effect_def)

lemma load_for_selection_scopes:
  assumes "enabled s (MessagesLoaded p \<lparr>data = d, error = None\<rparr>)"
    and "selectedPhone s = Some p"
  shows "view_scoped (step s (MessagesLoaded p \<lparr>data = d, error = None\<rparr>))"
  using assms
  by (auto simp: loadMessages_def Let_def view_scoped_def list_all_iff split: option.splits)

subsection \<open>The bulk query\<close>

lemma query_messages_length: "length (query_messages store p) \<le> 100"
  by (simp add: query_messages_def)

lemma query_messages_key: "list_all (\<lambda>m. m_phone m = p) (query_messages store p)"
proof -
  have "set (query_messages store p) \<subseteq> set (filter (\<lambda>m. m_phone m = p) store)"
    unfolding query_messages_def using set_take_subset [of 100] by fastforce
  then show ?thesis by (auto simp: list_all_iff)
qed

lemma query_messages_oldest_last:
  "sorted (map created_at (rev (query_messages store p)))"
proof -
  let ?xs = "sort_key created_at (filter (\<lambda>m. m_phone m = p) store)"
  have "rev (query_messages store p) = drop (length ?xs - 100) ?xs"
    by (simp add: query_messages_def rev_take)
  moreover have "sorted (map created_at ?xs)"
    by (rule sorted_sort_key)
  ultimately show ?thesis
    by (simp add: drop_map [symmetric])
qed

lemma query_one: "query_messages [msg_hi t] ''+15551234'' = [msg_hi t]"
  by (simp add: query_messages_def msg_hi_def)

lemma query_two:
  assumes "t1 < t2"
    and "store = [msg_hi t1, msg_there t2] \<or> store = [msg_there t2, msg_hi t1]"
  shows "query_messages store ''+15551234'' = [msg_there t2, msg_hi t1]"
  using assms by (auto simp: query_messages_def msg_hi_def msg_there_def)

subsection \<open>The example states\<close>

lemma thread_loading_eq:
  "thread_loading = \<lparr>conversations = [alice, bob], selectedPhone = Some ''+15551234'',
     messages = [], channel = Some ''+15551234'', pending = [''+15551234''],
     loading_customers = False, console = []\<rparr>"
  by (simp add: thread_loading_def opened_def init_def loadCustomers_def setSelectedPhone_def
      cleanup_def falsy_def messages_effect_def)

lemma thread_open_eq:
  "thread_open = \<lparr>conversations = [alice, bob], selectedPhone = Some ''+15551234'',
     messages = [msg_hi 1], channel = Some ''+15551234'', pending = [],
     loading_customers = False, console = []\<rparr>"
  by (simp add: thread_open_def opened_def init_def loadCustomers_def setSelectedPhone_def
      cleanup_def falsy_def messages_effect_def loadMessages_def query_one)

lemma reachable_thread_loading: "reachable thread_loading"
proof -
  have "run init (take 2 (opened [alice, bob] [msg_hi 1])) = Some thread_loading"
    by (simp add: thread_loading_def opened_def init_def alice_def loadCustomers_def)
  with reachable_init show ?thesis by (rule run_reachable)
qed

lemma reachable_thread_open: "reachable thread_open"
proof -
  have "run init (opened [alice, bob] [msg_hi 1]) = Some thread_open"
    by (simp add: thread_open_def opened_def init_def alice_def loadCustomers_def
        setSelectedPhone_def cleanup_def falsy_def messages_effect_def query_messages_length
        query_messages_key)
  with reachable_init show ?thesis by (rule run_reachable)
qed

lemma run_opened_switch:
  "run init (opened [alice, bob] [msg_hi 1] @ [Click ''+15559999''])
     = Some (foldl step init (opened [alice, bob] [msg_hi 1] @ [Click ''+15559999'']))"
  by (simp add: opened_def init_def alice_def bob_def loadCustomers_def setSelectedPhone_def
      cleanup_def falsy_def messages_effect_def loadMessages_def query_messages_length
      query_messages_key)

lemma opened_state:
  "foldl step init (opened [alice] store) =
     \<lparr>conversations = [alice], selectedPhone = Some ''+15551234'',
      messages = query_messages store ''+15551234'', channel = Some ''+15551234'',
      pending = [], loading_customers = False, console = []\<rparr>"
  by (simp add: opened_def init_def loadCustomers_def setSelectedPhone_def
      cleanup_def falsy_def messages_effect_def loadMessages_def)

lemma run_opened:
  "run init (opened [alice] store) = Some (foldl step init (opened [alice] store))"
  by (simp add: opened_def init_def alice_def loadCustomers_def setSelectedPhone_def
      cleanup_def falsy_def messages_effect_def query_messages_length query_messages_key)

subsection \<open>The list in view and the selection\<close>

text \<open>
  Claim C1 as stated, "at every reachable state the list in view holds only messages of
  the selected conversation", fails. The customers load, the user opens \<open>+15551234\<close>, its
  one message arrives, and the user clicks \<open>+15559999\<close>: \<open>setSelectedPhone\<close> leaves
  \<open>messages\<close> alone, so the state after the click shows the message of \<open>+15551234\<close> under
  the selection \<open>+15559999\<close>.
\<close>

theorem stale_messages_after_switch_counterexample:
  "reachable (foldl step init (opened [alice, bob] [msg_hi 1] @ [Click ''+15559999''])) \<and>
   selectedPhone (foldl step init (opened [alice, bob] [msg_hi 1] @ [Click ''+15559999'']))
     = Some ''+15559999'' \<and>
   messages (foldl step init (opened [alice, bob] [msg_hi 1] @ [Click ''+15559999'']))
     = [msg_hi 1] \<and>
   \<not> view_scoped (foldl step init (opened [alice, bob] [msg_hi 1] @ [Click ''+15559999'']))"
proof -
  have "reachable (foldl step init (opened [alice, bob] [msg_hi 1] @ [Click ''+15559999'']))"
    using run_reachable [OF reachable_init run_opened_switch] .
  moreover have
    "selectedPhone (foldl step init (opened [alice, bob] [msg_hi 1] @ [Click ''+15559999'']))
       = Some ''+15559999''"
    by (simp add: opened_def init_def alice_def bob_def loadCustomers_def setSelectedPhone_def
        cleanup_def falsy_def messages_effect_def loadMessages_def query_one)
  moreover have
    "messages (foldl step init (opened [alice, bob] [msg_hi 1] @ [Click ''+15559999'']))
       = [msg_hi 1]"
    by (simp add: opened_def init_def alice_def bob_def loadCustomers_def setSelectedPhone_def
        cleanup_def falsy_def messages_effect_def loadMessages_def query_one)
  ultimately show ?thesis
    by (simp add: view_scoped_def msg_hi_def)
qed

text \<open>
  Claim C1, amended. At every reachable state: a feed insert event whose phone differs
  from the selection leaves the message list unchanged (the live channel's filter is the
  selection, so the event is filtered at subscription time; the earlier revision's
  callback discards it itself); if the list holds only messages of the selection, it
  still does after every event that neither changes the selection nor answers a fetch
  started for another key; a successful answer to a fetch for the selected key makes
  the list hold only messages of the selection, whatever it held before; a click, and
  so every change of selection, leaves the message list exactly as it was; and the
  answer to a fetch, whatever key it was started for, replaces the list by its rows when
  it succeeds and leaves the list as it was when it is an error.
\<close>

theorem feed_filtered_view_scoped_by_load:
  assumes "reachable s"
  shows "(\<forall>row. Some (m_phone row) \<noteq> selectedPhone s \<longrightarrow>
            messages (step s (MessageInserted row)) = messages s \<and>
            insert_if_selected (selectedPhone s) row (messages s) = messages s) \<and>
         (\<forall>ev. enabled s ev \<longrightarrow> for_selection s ev \<longrightarrow> view_scoped s \<longrightarrow>
            view_scoped (step s ev)) \<and>
         (\<forall>p d. enabled s (MessagesLoaded p \<lparr>data = d, error = None\<rparr>) \<longrightarrow>
            selectedPhone s = Some p \<longrightarrow>
            view_scoped (step s (MessagesLoaded p \<lparr>data = d, error = None\<rparr>))) \<and>
         (\<forall>p. messages (step s (Click p)) = messages s) \<and>
         (\<forall>p d. messages (step s (MessagesLoaded p \<lparr>data = d, error = None\<rparr>))
            = (case d of None \<Rightarrow> [] | Some rows \<Rightarrow> rows)) \<and>
         (\<forall>p d e. messages (step s (MessagesLoaded p \<lparr>data = d, error = Some e\<rparr>))
            = messages s)"
proof (intro conjI allI impI)
  fix row :: message
  assume "Some (m_phone row) \<noteq> selectedPhone s"
  with assms show "messages (step s (MessageInserted row)) = messages s"
    by (simp add: insert_other_key_ignored)
next
  fix row :: message
  assume "Some (m_phone row) \<noteq> selectedPhone s"
  then show "insert_if_selected (selectedPhone s) row (messages s) = messages s"
    by (simp add: insert_if_selected_def)
next
  fix ev
  assume "enabled s ev" "for_selection s ev" "view_scoped s"
  with assms show "view_scoped (step s ev)" by (rule view_scoped_preserved)
next
  fix p d
  assume "enabled s (MessagesLoaded p \<lparr>data = d, error = None\<rparr>)" "selectedPhone s = Some p"
  then show "view_scoped (step s (MessagesLoaded p \<lparr>data = d, error = None\<rparr>))"
    by (rule load_for_selection_scopes)
next
  fix p
  show "messages (step s (Click p)) = messages s"
    by (simp add: click_keeps_messages)
next
  fix p d
  show "messages (step s (MessagesLoaded p \<lparr>data = d, error = None\<rparr>))
      = (case d of None \<Rightarrow> [] | Some rows \<Rightarrow> rows)"
    by (simp add: loadMessages_def Let_def)
next
  fix p d e
  show "messages (step s (MessagesLoaded p \<lparr>data = d, error = Some e\<rparr>)) = messages s"
    by (simp add: loadMessages_def Let_def)
qed

theorem feed_filtered_view_scoped_by_load_witness:
  "reachable thread_open \<and>
   Some (m_phone msg_bob) \<noteq> selectedPhone thread_open \<and>
   messages (step thread_open (MessageInserted msg_bob)) = messages thread_open \<and>
   enabled thread_open (MessageInserted (msg_ok 5)) \<and>
   for_selection thread_open (MessageInserted (msg_ok 5)) \<and>
   view_scoped thread_open \<and>
   view_scoped (step thread_open (MessageInserted (msg_ok 5))) \<and>
   messages (step thread_open (MessageInserted (msg_ok 5))) = [msg_ok 5, msg_hi 1] \<and>
   reachable thread_loading \<and>
   enabled thread_loading
     (MessagesLoaded ''+15551234'' \<lparr>data = Some [msg_hi 1], error = None\<rparr>) \<and>
   selectedPhone thread_loading = Some ''+15551234'' \<and>
   view_scoped (step thread_loading
     (MessagesLoaded ''+15551234'' \<lparr>data = Some [msg_hi 1], error = None\<rparr>)) \<and>
   selectedPhone (step thread_open (Click ''+15559999'')) = Some ''+15559999'' \<and>
   messages (step thread_open (Click ''+15559999'')) = [msg_hi 1] \<and>
   messages (step thread_open
     (MessagesLoaded ''+15559999'' \<lparr>data = None, error = Some ''timeout''\<rparr>)) = [msg_hi 1] \<and>
   messages (step thread_open
     (MessagesLoaded ''+15559999'' \<lparr>data = Some [msg_bob], error = None\<rparr>)) = [msg_bob]"
proof -
  have a: "Some (m_phone msg_bob) \<noteq> selectedPhone thread_open"
    by (simp add: thread_open_eq msg_bob_def)
  have b: "view_scoped thread_open"
    by (simp add: thread_open_eq view_scoped_def msg_hi_def)
  have c: "enabled thread_loading
      (MessagesLoaded ''+15551234'' \<lparr>data = Some [msg_hi 1], error = None\<rparr>)"
    by (simp add: thread_loading_eq msg_hi_def)
  have d: "selectedPhone thread_loading = Some ''+15551234''"
    by (simp add: thread_loading_eq)
  have e: "messages (step thread_open (MessageInserted (msg_ok 5))) = [msg_ok 5, msg_hi 1]"
    by (simp add: thread_open_eq on_messages_insert_def messages_insert_def msg_ok_def)
  have f: "enabled thread_open (MessageInserted (msg_ok 5)) \<and>
      for_selection thread_open (MessageInserted (msg_ok 5))"
    by simp
  note open_facts = feed_filtered_view_scoped_by_load [OF reachable_thread_open]
  note loading_facts = feed_filtered_view_scoped_by_load [OF reachable_thread_loading]
  have "messages (step thread_open (MessageInserted msg_bob)) = messages thread_open"
    using open_facts a by blast
  moreover have "view_scoped (step thread_open (MessageInserted (msg_ok 5)))"
    using open_facts b f by blast
  moreover have "view_scoped (step thread_loading
      (MessagesLoaded ''+15551234'' \<lparr>data = Some [msg_hi 1], error = None\<rparr>))"
    using loading_facts c d by blast
  moreover have "messages (step thread_open (Click ''+15559999'')) = [msg_hi 1]"
    using open_facts by (simp add: thread_open_eq)
  moreover have "messages (step thread_open
      (MessagesLoaded ''+15559999'' \<lparr>data = None, error = Some ''timeout''\<rparr>)) = [msg_hi 1]"
    using open_facts by (simp add: thread_open_eq)
  moreover have "messages (step thread_open
      (MessagesLoaded ''+15559999'' \<lparr>data = Some [msg_bob], error = None\<rparr>)) = [msg_bob]"
    using open_facts by simp
  moreover have "selectedPhone (step thread_open (Click ''+15559999'')) = Some ''+15559999''"
    by (simp add: thread_open_eq setSelectedPhone_def cleanup_def falsy_def
        messages_effect_def)
  ultimately show ?thesis
    using a b c d e f reachable_thread_open reachable_thread_loading by blast
qed

subsection \<open>No conversation selected\<close>






subsection \<open>Order on screen\<close>

text \<open>
  Claim C6. With the stored messages "hi" at \<open>t1\<close> and "there" at \<open>t2 > t1\<close> of the
  conversation \<open>+15551234\<close> (in either order in the table), opening the conversation
  shows, from top to bottom, "hi" then "there"; an insert event for the same phone with
  body "ok" then shows as the third and last entry, and an insert event for any other
  phone leaves the screen as it is. In general the fetch puts the oldest row last in the
  list, so at the top of the screen, and an insert for the selected conversation lands
  at the bottom of the screen, after everything shown before.
\<close>

theorem thread_renders_oldest_to_newest:
  assumes "t1 < t2"
    and "store = [msg_hi t1, msg_there t2] \<or> store = [msg_there t2, msg_hi t1]"
  shows "run init (opened [alice] store) = Some (foldl step init (opened [alice] store)) \<and>
         rendered (foldl step init (opened [alice] store)) = [''hi'', ''there''] \<and>
         rendered (step (foldl step init (opened [alice] store)) (MessageInserted (msg_ok t3)))
           = [''hi'', ''there'', ''ok''] \<and>
         (\<forall>row. m_phone row \<noteq> ''+15551234'' \<longrightarrow>
            rendered (step (foldl step init (opened [alice] store)) (MessageInserted row))
              = [''hi'', ''there'']) \<and>
         (\<forall>s row. reachable s \<longrightarrow> selectedPhone s = Some (m_phone row) \<longrightarrow>
            m_phone row \<noteq> [] \<longrightarrow>
            rendered (step s (MessageInserted row)) = rendered s @ [body row]) \<and>
         (\<forall>rows p. sorted (map created_at (rev (query_messages rows p))))"
proof -
  note q = query_two [OF assms]
  have "rendered (foldl step init (opened [alice] store)) = [''hi'', ''there'']"
    by (simp add: opened_state q rendered_def msg_hi_def msg_there_def)
  moreover have
    "rendered (step (foldl step init (opened [alice] store)) (MessageInserted (msg_ok t3)))
       = [''hi'', ''there'', ''ok'']"
    by (simp add: opened_state q rendered_def on_messages_insert_def messages_insert_def
        msg_hi_def msg_there_def msg_ok_def)
  moreover have
    "rendered (step (foldl step init (opened [alice] store)) (MessageInserted row))
       = [''hi'', ''there'']" if "m_phone row \<noteq> ''+15551234''" for row
    using that
    by (simp add: opened_state q rendered_def on_messages_insert_def msg_hi_def msg_there_def)
  moreover have "rendered (step s (MessageInserted row)) = rendered s @ [body row]"
    if "reachable s" "selectedPhone s = Some (m_phone row)" "m_phone row \<noteq> []" for s row
    using insert_selected_key_prepends [OF that] by (simp add: rendered_def)
  ultimately show ?thesis
    using run_opened query_messages_oldest_last by blast
qed

theorem thread_renders_oldest_to_newest_witness:
  "(1::int) < 2 \<and>
   rendered (foldl step init (opened [alice] [msg_hi 1, msg_there 2])) = [''hi'', ''there''] \<and>
   rendered (step (foldl step init (opened [alice] [msg_hi 1, msg_there 2]))
       (MessageInserted (msg_ok 3))) = [''hi'', ''there'', ''ok''] \<and>
   m_phone msg_bob \<noteq> ''+15551234'' \<and>
   rendered (step (foldl step init (opened [alice] [msg_hi 1, msg_there 2]))
       (MessageInserted msg_bob)) = [''hi'', ''there''] \<and>
   reachable thread_open \<and> selectedPhone thread_open = Some (m_phone (msg_ok 3)) \<and>
   m_phone (msg_ok 3) \<noteq> [] \<and>
   rendered (step thread_open (MessageInserted (msg_ok 3))) = rendered thread_open @ [''ok'']"
proof -
  have a: "(1::int) < 2" by simp
  have b: "m_phone msg_bob \<noteq> ''+15551234''" by (simp add: msg_bob_def)
  have c: "selectedPhone thread_open = Some (m_phone (msg_ok 3))" "m_phone (msg_ok 3) \<noteq> []"
    "body (msg_ok 3) = ''ok''"
    by (simp_all add: thread_open_eq msg_ok_def)
  note ex = thread_renders_oldest_to_newest [OF a, of "[msg_hi 1, msg_there 2]" 3]
  have "rendered (step thread_open (MessageInserted (msg_ok 3)))
      = rendered thread_open @ [body (msg_ok 3)]"
    using ex c(1,2) reachable_thread_open by blast
  with ex a b c reachable_thread_open show ?thesis by simp
qed

section \<open>The composer\<close>

lemma trim_empty_iff: "trim t = [] \<longleftrightarrow> (\<forall>ch \<in> set t. is_ws ch)"
proof
  assume "trim t = []"
  then have all: "\<forall>ch \<in> set (dropWhile is_ws t). is_ws ch"
    by (simp add: trim_def)
  have "dropWhile is_ws t = []"
  proof (rule ccontr)
    assume ne: "dropWhile is_ws t \<noteq> []"
    then have "\<not> is_ws (hd (dropWhile is_ws t))" by (rule hd_dropWhile)
    moreover from ne have "hd (dropWhile is_ws t) \<in> set (dropWhile is_ws t)" by simp
    ultimately show False using all by blast
  qed
  then show "\<forall>ch \<in> set t. is_ws ch" by simp
next
  assume "\<forall>ch \<in> set t. is_ws ch"
  then have "dropWhile is_ws t = []" by simp
  then show "trim t = []" by (simp only: trim_def rev.simps dropWhile.simps)
qed

lemma trim_hi: "trim '' hi '' = ''hi''"
  by (simp add: trim_def is_ws_def)

text \<open>
  Claim C2 as stated, "if the request fails with a non-2xx status, the error is logged
  and the input is not cleared", fails. \<open>fetch\<close> resolves on a response of status 500;
  nothing reads the status, so \<open>setText("")\<close> runs and nothing is logged.
\<close>

theorem send_http_error_clears_counterexample:
  "\<not> falsy (Some ''+15551234'') \<and> trim (text_value (draft ''hi'')) \<noteq> [] \<and>
   text_value (send (Some ''+15551234'') (Resolved 500) (draft ''hi'')) = [] \<and>
   text_value (send (Some ''+15551234'') (Resolved 500) (draft ''hi''))
     \<noteq> text_value (draft ''hi'') \<and>
   logged (send (Some ''+15551234'') (Resolved 500) (draft ''hi'')) = []"
  by (simp add: send_def draft_def falsy_def trim_def is_ws_def)

text \<open>
  Claim C2, amended. For every send with a selected conversation and a text that is not
  empty after trimming: if the POST request completes with a response, of whatever HTTP
  status, the input is cleared and nothing is logged; if the request fails with a
  network error (the promise rejects), the error is logged and the input is not cleared.
\<close>

theorem send_clears_on_response_keeps_on_reject:
  assumes "\<not> falsy (Some p)" and "trim (text_value c) \<noteq> []"
  shows "(\<forall>st. text_value (send (Some p) (Resolved st) c) = [] \<and>
               logged (send (Some p) (Resolved st) c) = logged c) \<and>
         (\<forall>err. text_value (send (Some p) (Rejected err) c) = text_value c \<and>
               logged (send (Some p) (Rejected err) c)
                 = logged c @ [(''Failed to send message:'', err)])"
  using assms by (simp add: send_def falsy_def Let_def)

theorem send_clears_on_response_keeps_on_reject_witness:
  "\<not> falsy (Some ''+15551234'') \<and> trim (text_value (draft ''hi'')) \<noteq> [] \<and>
   text_value (send (Some ''+15551234'') (Resolved 200) (draft ''hi'')) = [] \<and>
   logged (send (Some ''+15551234'') (Resolved 200) (draft ''hi'')) = [] \<and>
   text_value (send (Some ''+15551234'') (Rejected ''offline'') (draft ''hi'')) = ''hi'' \<and>
   logged (send (Some ''+15551234'') (Rejected ''offline'') (draft ''hi''))
     = [(''Failed to send message:'', ''offline'')]"
proof -
  have a: "\<not> falsy (Some ''+15551234'')" by (simp add: falsy_def)
  have b: "trim (text_value (draft ''hi'')) \<noteq> []"
    by (simp add: draft_def trim_def is_ws_def)
  have c: "text_value (draft ''hi'') = ''hi''" "logged (draft ''hi'') = []"
    by (simp_all add: draft_def)
  from send_clears_on_response_keeps_on_reject [OF a b] a b c show ?thesis by simp
qed

text \<open>
  Claim C7. A send attempt with a text that is empty or holds only white space performs
  no network call and leaves the composer as it was, whatever the selection.
\<close>

theorem send_blank_is_noop:
  assumes "\<forall>ch \<in> set (text_value c). is_ws ch"
  shows "send sel result c = c \<and> sent (send sel result c) = sent c \<and>
         text_value (send sel result c) = text_value c"
  using assms trim_empty_iff [of "text_value c"]
  by (simp add: send_def split: option.splits)

theorem send_blank_is_noop_witness:
  "list_all is_ws (text_value (draft [CHR '' '', CHR 0x09, CHR '' ''])) \<and>
   send (Some ''+15551234'') (Resolved 200) (draft [CHR '' '', CHR 0x09, CHR '' ''])
     = draft [CHR '' '', CHR 0x09, CHR '' ''] \<and>
   sent (send (Some ''+15551234'') (Resolved 200) (draft [CHR '' '', CHR 0x09, CHR '' ''])) = [] \<and>
   send (Some ''+15551234'') (Resolved 200) (draft []) = draft []"
proof -
  have a: "\<forall>ch \<in> set (text_value (draft [CHR '' '', CHR 0x09, CHR '' ''])). is_ws ch"
    by (simp add: draft_def is_ws_def)
  have b: "\<forall>ch \<in> set (text_value (draft [])). is_ws ch"
    by (simp add: draft_def)
  have c: "sent (draft [CHR '' '', CHR 0x09, CHR '' '']) = []"
    by (simp add: draft_def)
  from send_blank_is_noop [OF a, of "Some ''+15551234''" "Resolved 200"]
    send_blank_is_noop [OF b, of "Some ''+15551234''" "Resolved 200"] a c
  show ?thesis by (simp add: list_all_iff)
qed

text \<open>
  Claim C10. Whenever a send passes the guard, whatever becomes of the request, the one
  request issued is a POST to \<open>/send\<close> whose JSON body carries the selected phone and, as
  its text field, the input text as typed: trimming is applied in the guard only, so the
  input " hi " goes out as " hi ".
\<close>

theorem send_posts_untrimmed_text:
  assumes "\<not> falsy (Some p)" and "trim (text_value c) \<noteq> []"
  shows "sent (send (Some p) result c) =
           sent c @ [\<lparr>url = ''/send'', http_method = ''POST'',
                      headers = [(''Content-Type'', ''application/json'')],
                      payload = JObject [(''phone'', JString p),
                                         (''text'', JString (text_value c))]\<rparr>]"
  using assms by (cases result) (simp_all add: send_def falsy_def Let_def)

theorem send_posts_untrimmed_text_witness:
  "\<not> falsy (Some ''+15551234'') \<and> trim (text_value (draft '' hi '')) \<noteq> [] \<and>
   trim '' hi '' \<noteq> '' hi '' \<and>
   map payload (sent (send (Some ''+15551234'') (Resolved 200) (draft '' hi '')))
     = [JObject [(''phone'', JString ''+15551234''), (''text'', JString '' hi '')]]"
proof -
  have a: "\<not> falsy (Some ''+15551234'')" by (simp add: falsy_def)
  have b: "trim (text_value (draft '' hi '')) \<noteq> []"
    by (simp add: draft_def trim_hi)
  have c: "text_value (draft '' hi '') = '' hi ''" "sent (draft '' hi '') = []"
    by (simp_all add: draft_def)
  have d: "trim '' hi '' \<noteq> '' hi ''" by (simp add: trim_hi)
  from send_posts_untrimmed_text [OF a b, of "Resolved 200"] a b c d show ?thesis by simp
qed

section \<open>The request-forwarding handler\<close>

lemma fold_data:
  "listening s \<Longrightarrow> thrown s = None \<Longrightarrow>
   fold (on_proc_event decode) (map Data chunks) s
     = s\<lparr>out := out s @ concat (map decode chunks)\<rparr>"
  by (induction chunks arbitrary: s) simp_all

lemma fold_not_listening:
  "\<not> listening s \<Longrightarrow> effects (fold (on_proc_event decode) evs s) = effects s"
proof (induction evs arbitrary: s)
  case Nil
  show ?case by simp
next
  case (Cons ev evs)
  have "\<not> listening (on_proc_event decode ev s)"
    using Cons.prems by (cases ev) simp_all
  moreover have "effects (on_proc_event decode ev s) = effects s"
    using Cons.prems by (cases ev) simp_all
  ultimately show ?case using Cons.IH [of "on_proc_event decode ev s"] by simp
qed

text \<open>
  When \<open>JSON.stringify\<close> accepts the envelope and the child writes its chunks and
  closes, the handler does what the contract says, the body being the chunks converted
  one by one.
\<close>

lemma serve_relays_child_output:
  assumes "stringify print h [(''req'', req), (''env'', env)] = Some envelope"
  shows "serve print decode h dirname req env (map Data chunks @ [Close code]) =
     \<lparr>out = concat (map decode chunks),
      effects = [Spawn ''python3'' [dirname @ ''/index.py''], StdinWrite envelope, StdinEnd,
                 Respond (if code = Some 0 then 200 else 500) (concat (map decode chunks))],
      listening = True, thrown = None\<rparr>"
  using assms by (simp add: serve_def handler_def fold_data)

lemma node_heap_circular:
  "stringify print node_heap [(''req'', VRef 0), (''env'', VRef 3)] = None"
  by (simp add: stringify_def node_heap_def)

text \<open>
  Claim C5 does not hold of the code. Whenever \<open>JSON.stringify\<close> throws on the envelope,
  as it does on a request object that reaches itself through its socket, the handler has
  spawned the child and does nothing more: whatever the child does afterwards, nothing
  is written to its standard input, the stream is not ended, and no response is sent.
\<close>

theorem handler_throws_on_circular_request:
  assumes "stringify print h [(''req'', req), (''env'', env)] = None"
  shows "effects (serve print decode h dirname req env evs)
           = [Spawn ''python3'' [dirname @ ''/index.py'']] \<and>
         filter is_respond (effects (serve print decode h dirname req env evs)) = [] \<and>
         thrown (handler print h dirname req env)
           = Some ''TypeError: Converting circular structure to JSON''"
  using assms fold_not_listening [of "handler print h dirname req env" decode evs]
  by (simp add: serve_def handler_def is_respond_def)

theorem handler_throws_on_circular_request_witness:
  "stringify (\<lambda>t. ''{}'') node_heap [(''req'', VRef 0), (''env'', VRef 3)] = None \<and>
   effects (serve (\<lambda>t. ''{}'') (map char_of) node_heap ''/var/task/api'' (VRef 0) (VRef 3)
      [Data [111, 107], Close (Some 0)])
     = [Spawn ''python3'' [''/var/task/api/index.py'']] \<and>
   filter is_respond
     (effects (serve (\<lambda>t. ''{}'') (map char_of) node_heap ''/var/task/api'' (VRef 0) (VRef 3)
        [Data [111, 107], Close (Some 0)])) = []"
  using handler_throws_on_circular_request
      [OF node_heap_circular, of "\<lambda>t. ''{}''" "map char_of" "''/var/task/api''"
        "[Data [111, 107], Close (Some 0)]"]
    node_heap_circular [of "\<lambda>t. ''{}''"]
  by (simp add: is_respond_def)

section \<open>The configuration module\<close>

text \<open>
  Claim C8. Evaluating the module reads each of the two variables once; if either is
  absent, the evaluation throws and exports no client; a client that is exported was
  made from the two values read.
\<close>

theorem config_fails_fast:
  "reads (supabaseClient env) = [''VITE_SUPABASE_URL'', ''VITE_SUPABASE_KEY''] \<and>
   (env ''VITE_SUPABASE_URL'' = None \<or> env ''VITE_SUPABASE_KEY'' = None \<longrightarrow>
      (\<exists>msg. exported (supabaseClient env) = Inl msg)) \<and>
   (\<forall>cl. exported (supabaseClient env) = Inr cl \<longrightarrow>
      env ''VITE_SUPABASE_URL'' = Some (supabaseUrl cl) \<and>
      env ''VITE_SUPABASE_KEY'' = Some (supabaseKey cl))"
  by (auto simp: supabaseClient_def split: option.splits)

theorem config_fails_fast_witness:
  "[''VITE_SUPABASE_URL'' \<mapsto> ''https://db.example''] ''VITE_SUPABASE_KEY'' = None \<and>
   exported (supabaseClient [''VITE_SUPABASE_URL'' \<mapsto> ''https://db.example''])
     = Inl ''VITE_SUPABASE_KEY is missing in your .env file'' \<and>
   exported (supabaseClient Map.empty) = Inl ''VITE_SUPABASE_URL is missing in your .env file'' \<and>
   exported (supabaseClient
       [''VITE_SUPABASE_URL'' \<mapsto> ''https://db.example'', ''VITE_SUPABASE_KEY'' \<mapsto> ''k''])
     = Inr \<lparr>supabaseUrl = ''https://db.example'', supabaseKey = ''k''\<rparr>"
proof -
  have a: "[''VITE_SUPABASE_URL'' \<mapsto> ''https://db.example''] ''VITE_SUPABASE_KEY'' = None"
    by simp
  from config_fails_fast [of "[''VITE_SUPABASE_URL'' \<mapsto> ''https://db.example'']"] a
  have "\<exists>msg. exported (supabaseClient [''VITE_SUPABASE_URL'' \<mapsto> ''https://db.example''])
      = Inl msg"
    by blast
  then show ?thesis using a by (simp add: supabaseClient_def)
qed

end
